theory Spec2Isabelle
  imports Main
begin

section \<open>Python strings\<close>

text \<open>
  A Python \<open>str\<close> is a sequence of Unicode code points. The status strings of the plugin
  carry code points far beyond one byte (U+274C, U+2705, U+26A0 U+FE0F, U+1F6A8), and the
  substring test \<open>in\<close> compares code points, so a string is a list of code point numbers.
\<close>

type_synonym ustr = "nat list"

text \<open>An ASCII literal of the source, code point by code point.\<close>

definition cps :: "string \<Rightarrow> ustr" where
  "cps s = map of_char s"

text \<open>\<open>p in t\<close> on two strings: \<open>p\<close> occurs in \<open>t\<close> as a contiguous run.\<close>

fun str_prefix :: "ustr \<Rightarrow> ustr \<Rightarrow> bool" where
  "str_prefix [] t = True"
| "str_prefix (x # p) [] = False"
| "str_prefix (x # p) (c # t) = (x = c \<and> str_prefix p t)"

fun str_in :: "ustr \<Rightarrow> ustr \<Rightarrow> bool" where
  "str_in p [] = (p = [])"
| "str_in p (c # t) = (str_prefix p (c # t) \<or> str_in p t)"

subsection \<open>\<open>str.lower()\<close>\<close>

text \<open>
  \<open>str.lower()\<close> belongs to the Python runtime, not to the repository. On a code point below
  128 it is fixed: \<open>A\<close>..\<open>Z\<close> move to \<open>a\<close>..\<open>z\<close>, everything else stays. On the other code
  points it follows the Unicode character database of the running interpreter, one code
  point giving one or more code points, and for U+03A3 the result depends on the
  neighbouring characters. That table is a parameter of the model: \<open>U left c right\<close> is
  the lower-casing of the non-ASCII code point \<open>c\<close> standing between \<open>left\<close> and \<open>right\<close>.
\<close>

type_synonym lower_table = "ustr \<Rightarrow> nat \<Rightarrow> ustr \<Rightarrow> ustr"

definition ascii_lower :: "nat \<Rightarrow> nat" where
  "ascii_lower c = (if 65 \<le> c \<and> c \<le> 90 then c + 32 else c)"

definition lower_cp :: "lower_table \<Rightarrow> ustr \<Rightarrow> nat \<Rightarrow> ustr \<Rightarrow> ustr" where
  "lower_cp U left c right = (if c < 128 then [ascii_lower c] else U left c right)"

fun lower_from :: "lower_table \<Rightarrow> ustr \<Rightarrow> ustr \<Rightarrow> ustr" where
  "lower_from U left [] = []"
| "lower_from U left (c # right) =
     lower_cp U left c right @ lower_from U (left @ [c]) right"

definition str_lower :: "lower_table \<Rightarrow> ustr \<Rightarrow> ustr" where
  "str_lower U s = lower_from U [] s"

text \<open>
  What the claims need of the table, and what holds of the Unicode database: only two
  non-ASCII code points lower-case to something with an ASCII code point in it, the Kelvin
  sign U+212A (to \<open>k\<close>) and U+0130 (to \<open>i\<close> followed by U+0307); every other non-ASCII
  code point gives a non-empty string of non-ASCII code points.
\<close>

definition unicode_table_ok :: "lower_table \<Rightarrow> bool" where
  "unicode_table_ok U \<longleftrightarrow>
     (\<forall>left c right. 128 \<le> c \<longrightarrow>
        (if c = 8490 then U left c right = [107]
         else if c = 304 then U left c right = [105, 775]
         else U left c right \<noteq> [] \<and> (\<forall>x \<in> set (U left c right). 128 \<le> x)))"

text \<open>A small table of that kind, for evaluating the model on concrete strings.\<close>

definition sample_table :: lower_table where
  "sample_table left c right =
     (if c = 8490 then [107]
      else if c = 304 then [105, 775]
      else if c = 201 then [233]
      else if c = 931 then (if left = [] then [963] else [962])
      else [c])"

section \<open>The plugin\<close>

text \<open>The markers of the status strings: U+274C, U+2705, U+26A0 U+FE0F and U+1F6A8.\<close>

definition CROSS :: ustr where "CROSS = [10060]"
definition CHECK :: ustr where "CHECK = [9989]"
definition WARN :: ustr where "WARN = [9888, 65039]"
definition SIREN :: ustr where "SIREN = [128680]"

definition DOC_INVALID :: ustr where
  "DOC_INVALID = CROSS @ cps '' Document invalid: suspected forgery.''"
definition DOC_VALID :: ustr where
  "DOC_VALID = CHECK @ cps '' Document valid.''"
definition BEHAVIOR_RISK :: ustr where
  "BEHAVIOR_RISK = WARN @ cps '' Behavioral risk detected.''"
definition BEHAVIOR_NORMAL :: ustr where
  "BEHAVIOR_NORMAL = CHECK @ cps '' Behavior appears normal.''"
definition HIGH_RISK :: ustr where
  "HIGH_RISK = SIREN @ cps '' High Risk: Escalate to manual review.''"
definition LOW_RISK :: ustr where
  "LOW_RISK = CHECK @ cps '' Low Risk: Auto-approve onboarding.''"

definition validate_id_document :: "lower_table \<Rightarrow> ustr \<Rightarrow> ustr" where
  "validate_id_document U document_text =
     (if str_in (cps ''forged'') (str_lower U document_text) then DOC_INVALID
      else DOC_VALID)"

definition watchlist :: "ustr list" where
  "watchlist = [cps ''John Doe'', cps ''Ali Khan'']"

definition screen_against_sanctions :: "ustr \<Rightarrow> ustr" where
  "screen_against_sanctions full_name =
     (if full_name \<in> set watchlist
      then CROSS @ cps '' '' @ full_name @ cps '' flagged on sanctions list.''
      else CHECK @ cps '' '' @ full_name @ cps '' is clear.'')"

definition assess_behavioral_risk :: "lower_table \<Rightarrow> ustr \<Rightarrow> ustr" where
  "assess_behavioral_risk U behavior_data =
     (if str_in (cps ''bot-like'') (str_lower U behavior_data)
         \<or> str_in (cps ''unusual'') (str_lower U behavior_data)
      then BEHAVIOR_RISK
      else BEHAVIOR_NORMAL)"

definition combine_risk_signals :: "ustr \<Rightarrow> ustr \<Rightarrow> ustr \<Rightarrow> ustr" where
  "combine_risk_signals id_status sanctions_status behavior_status =
     (let red_flags = [id_status, sanctions_status, behavior_status]
      in if list_ex (\<lambda>flag. str_in CROSS flag \<or> str_in WARN flag) red_flags
         then HIGH_RISK
         else LOW_RISK)"

section \<open>The specification's vocabulary\<close>

text \<open>
  The source works on plain strings. The specification speaks of a RiskStatus, a severity
  among OK, WARNING and REJECT together with a message, ordered OK < WARNING < REJECT. The
  definitions of this section follow the specification's words; they are what the source's
  functions are compared with.
\<close>

datatype severity = OK | WARNING | REJECT

fun sev_rank :: "severity \<Rightarrow> nat" where
  "sev_rank OK = 0"
| "sev_rank WARNING = 1"
| "sev_rank REJECT = 2"

definition sev_max :: "severity \<Rightarrow> severity \<Rightarrow> severity" where
  "sev_max v w = (if sev_rank v \<le> sev_rank w then w else v)"

record risk_status =
  level :: severity
  message :: ustr

text \<open>
  How the three evaluators of the source write a status down: the marker of the severity
  (U+2705 for OK, U+26A0 U+FE0F for WARNING, U+274C for REJECT), a space, the message.
\<close>

fun marker :: "severity \<Rightarrow> ustr" where
  "marker OK = CHECK"
| "marker WARNING = WARN"
| "marker REJECT = CROSS"

definition render :: "risk_status \<Rightarrow> ustr" where
  "render st = marker (level st) @ cps '' '' @ message st"

text \<open>
  Reading the severity back from the leading marker. The combined result of the source
  starts with U+1F6A8, which the specification calls REJECT-level.
\<close>

definition severity_of :: "ustr \<Rightarrow> severity option" where
  "severity_of s =
     (if str_prefix CROSS s \<or> str_prefix SIREN s then Some REJECT
      else if str_prefix WARN s then Some WARNING
      else if str_prefix CHECK s then Some OK
      else None)"

text \<open>A message text in which neither marker tested by the combinator occurs.\<close>

definition clean :: "ustr \<Rightarrow> bool" where
  "clean m \<longleftrightarrow> \<not> str_in CROSS m \<and> \<not> str_in WARN m"

text \<open>\<open>p\<close> occurs somewhere in \<open>t\<close>.\<close>

definition occurs_in :: "ustr \<Rightarrow> ustr \<Rightarrow> bool" where
  "occurs_in p t \<longleftrightarrow> (\<exists>pre post. t = pre @ p @ post)"

text \<open>
  Case variants. The code point \<open>c\<close> is the pattern's code point \<open>x\<close> in some case when
  \<open>c\<close> lower-cases to \<open>x\<close>: for an ASCII letter its upper-case and its lower-case form,
  for \<open>k\<close> also the Kelvin sign U+212A, whose lower case is \<open>k\<close>. A string contains a case
  variant of the pattern \<open>p\<close> when a contiguous run of it matches \<open>p\<close> code point by code
  point in that sense.
\<close>

definition same_letter :: "nat \<Rightarrow> nat \<Rightarrow> bool" where
  "same_letter c x \<longleftrightarrow> ascii_lower c = x \<or> (c = 8490 \<and> x = 107)"

fun variant_prefix :: "ustr \<Rightarrow> ustr \<Rightarrow> bool" where
  "variant_prefix [] t = True"
| "variant_prefix (x # p) [] = False"
| "variant_prefix (x # p) (c # t) = (same_letter c x \<and> variant_prefix p t)"

fun contains_variant :: "ustr \<Rightarrow> ustr \<Rightarrow> bool" where
  "contains_variant p [] = (p = [])"
| "contains_variant p (c # t) = (variant_prefix p (c # t) \<or> contains_variant p t)"

text \<open>
  The patterns the lemmas below cover: ASCII only, and not ending in \<open>i\<close> (after which the
  two code points that U+0130 lower-cases to could begin).
\<close>

definition pattern_ok :: "ustr \<Rightarrow> bool" where
  "pattern_ok p \<longleftrightarrow> (\<forall>x \<in> set p. x < 128) \<and> (p = [] \<or> last p \<noteq> 105)"


section \<open>Auxiliary facts\<close>

subsection \<open>Substrings\<close>

lemma str_prefix_iff: "str_prefix p t \<longleftrightarrow> (\<exists>post. t = p @ post)"
  by (induction p t rule: str_prefix.induct) auto

lemma str_in_iff: "str_in p t \<longleftrightarrow> (\<exists>pre post. t = pre @ p @ post)"
proof (induction t)
  case Nil
  then show ?case by auto
next
  case (Cons c t)
  show ?case
  proof
    assume "str_in p (c # t)"
    then consider "str_prefix p (c # t)" | "str_in p t" by auto
    then show "\<exists>pre post. c # t = pre @ p @ post"
    proof cases
      case 1
      then obtain post where "c # t = p @ post" unfolding str_prefix_iff by blast
      then have "c # t = [] @ p @ post" by simp
      then show ?thesis by blast
    next
      case 2
      then obtain pre post where "t = pre @ p @ post" using Cons.IH by blast
      then have "c # t = (c # pre) @ p @ post" by simp
      then show ?thesis by blast
    qed
  next
    assume "\<exists>pre post. c # t = pre @ p @ post"
    then obtain pre post where e: "c # t = pre @ p @ post" by blast
    show "str_in p (c # t)"
    proof (cases pre)
      case Nil
      with e have "str_prefix p (c # t)" unfolding str_prefix_iff by auto
      then show ?thesis by simp
    next
      case (Cons d pre')
      with e have "t = pre' @ p @ post" by simp
      then have "str_in p t" using Cons.IH by blast
      then show ?thesis by simp
    qed
  qed
qed

lemma variant_prefix_iff:
  "variant_prefix p t \<longleftrightarrow> (\<exists>v post. t = v @ post \<and> list_all2 same_letter v p)"
proof (induction p t rule: variant_prefix.induct)
  case (1 t)
  then show ?case by simp
next
  case (2 x p)
  then show ?case by simp
next
  case (3 x p c t)
  show ?case
  proof
    assume "variant_prefix (x # p) (c # t)"
    then have s: "same_letter c x" and "variant_prefix p t" by auto
    then obtain v post where "t = v @ post" "list_all2 same_letter v p" using 3 by blast
    then have "c # t = (c # v) @ post \<and> list_all2 same_letter (c # v) (x # p)"
      using s by simp
    then show "\<exists>v post. c # t = v @ post \<and> list_all2 same_letter v (x # p)" by blast
  next
    assume "\<exists>v post. c # t = v @ post \<and> list_all2 same_letter v (x # p)"
    then obtain v post where e: "c # t = v @ post" and l: "list_all2 same_letter v (x # p)"
      by blast
    from l obtain d v' where v: "v = d # v'" and "same_letter d x" "list_all2 same_letter v' p"
      by (auto simp: list_all2_Cons2)
    with e have "same_letter c x" "t = v' @ post" by auto
    with \<open>list_all2 same_letter v' p\<close> 3 show "variant_prefix (x # p) (c # t)" by auto
  qed
qed

lemma contains_variant_iff:
  "contains_variant p t \<longleftrightarrow>
     (\<exists>pre v post. t = pre @ v @ post \<and> list_all2 same_letter v p)"
proof (induction t)
  case Nil
  then show ?case by auto
next
  case (Cons c t)
  show ?case
  proof
    assume "contains_variant p (c # t)"
    then consider "variant_prefix p (c # t)" | "contains_variant p t" by auto
    then show "\<exists>pre v post. c # t = pre @ v @ post \<and> list_all2 same_letter v p"
    proof cases
      case 1
      then obtain v post where "c # t = v @ post" "list_all2 same_letter v p"
        unfolding variant_prefix_iff by blast
      then have "c # t = [] @ v @ post \<and> list_all2 same_letter v p" by simp
      then show ?thesis by blast
    next
      case 2
      then obtain pre v post where "t = pre @ v @ post" "list_all2 same_letter v p"
        using Cons.IH by blast
      then have "c # t = (c # pre) @ v @ post \<and> list_all2 same_letter v p" by simp
      then show ?thesis by blast
    qed
  next
    assume "\<exists>pre v post. c # t = pre @ v @ post \<and> list_all2 same_letter v p"
    then obtain pre v post where e: "c # t = pre @ v @ post"
      and l: "list_all2 same_letter v p" by blast
    show "contains_variant p (c # t)"
    proof (cases pre)
      case Nil
      with e l have "variant_prefix p (c # t)" unfolding variant_prefix_iff by auto
      then show ?thesis by simp
    next
      case (Cons d pre')
      with e have "t = pre' @ v @ post" by simp
      with l have "contains_variant p t" using Cons.IH by blast
      then show ?thesis by simp
    qed
  qed
qed

subsection \<open>Lower-casing and case variants\<close>

lemma str_prefix_other_head:
  "p \<noteq> [] \<Longrightarrow> blk \<noteq> [] \<Longrightarrow> hd blk \<notin> set p \<Longrightarrow> \<not> str_prefix p (blk @ t)"
  by (cases p; cases blk) auto

lemma str_in_skip_block:
  "p \<noteq> [] \<Longrightarrow> \<forall>y \<in> set blk. y \<notin> set p \<Longrightarrow> str_in p (blk @ t) = str_in p t"
proof (induction blk)
  case Nil
  then show ?case by simp
next
  case (Cons y blk)
  then have "\<not> str_prefix p (y # blk @ t)" by (cases p) auto
  with Cons show ?case by simp
qed

lemma str_prefix_dotted_i:
  assumes "p \<noteq> []" "last p \<noteq> 105" "775 \<notin> set p"
  shows "\<not> str_prefix p (105 # 775 # t)"
proof (cases p)
  case Nil
  with assms show ?thesis by simp
next
  case (Cons x p')
  with assms show ?thesis by (cases p') auto
qed

lemma pattern_ok_tail: "pattern_ok (x # p) \<Longrightarrow> pattern_ok p"
  by (auto simp: pattern_ok_def)

lemma lower_prefix:
  assumes U: "unicode_table_ok U"
  shows "pattern_ok p \<Longrightarrow> str_prefix p (lower_from U l s) = variant_prefix p s"
proof (induction p s arbitrary: l rule: variant_prefix.induct)
  case (1 t)
  then show ?case by simp
next
  case (2 x p)
  then show ?case by simp
next
  case (3 x p c t)
  then have IH: "\<And>l. str_prefix p (lower_from U l t) = variant_prefix p t"
    using pattern_ok_tail by blast
  from 3 have x: "x < 128" and p128: "\<forall>y \<in> set p. y < 128"
    and lst: "last (x # p) \<noteq> 105"
    by (auto simp: pattern_ok_def)
  consider (ascii) "c < 128" | (kelvin) "c = 8490" | (doti) "c = 304"
    | (other) "128 \<le> c" "c \<noteq> 8490" "c \<noteq> 304" by linarith
  then show ?case
  proof cases
    case ascii
    then show ?thesis
      using IH by (auto simp: lower_cp_def same_letter_def)
  next
    case kelvin
    then have "U l c t = [107]" using U by (simp add: unicode_table_ok_def)
    with kelvin x show ?thesis
      using IH by (auto simp: lower_cp_def same_letter_def ascii_lower_def)
  next
    case doti
    then have "U l c t = [105, 775]" using U by (simp add: unicode_table_ok_def)
    then have "lower_from U l (c # t) = 105 # 775 # lower_from U (l @ [c]) t"
      using doti by (simp add: lower_cp_def)
    moreover have "775 \<notin> set (x # p)" using x p128 by auto
    ultimately have "\<not> str_prefix (x # p) (lower_from U l (c # t))"
      using str_prefix_dotted_i [of "x # p"] lst by simp
    moreover have "\<not> same_letter c x"
      using doti x by (auto simp: same_letter_def ascii_lower_def)
    ultimately show ?thesis by simp
  next
    case other
    then have b: "U l c t \<noteq> []" "\<forall>y \<in> set (U l c t). 128 \<le> y"
      using U by (auto simp: unicode_table_ok_def)
    then have "hd (U l c t) \<notin> set (x # p)" using x p128
      by (metis hd_in_set not_le set_ConsD)
    then have "\<not> str_prefix (x # p) (U l c t @ lower_from U (l @ [c]) t)"
      using b str_prefix_other_head [of "x # p"] by blast
    moreover have "\<not> same_letter c x"
      using other x by (auto simp: same_letter_def ascii_lower_def)
    ultimately show ?thesis using other by (simp add: lower_cp_def)
  qed
qed

lemma lower_contains:
  assumes U: "unicode_table_ok U" and ok: "pattern_ok p" and ne: "p \<noteq> []"
  shows "str_in p (lower_from U l s) = contains_variant p s"
proof (induction s arbitrary: l)
  case Nil
  then show ?case by simp
next
  case (Cons c t)
  have pre: "str_prefix p (lower_from U l (c # t)) = variant_prefix p (c # t)"
    using lower_prefix [OF U ok] .
  from ok ne have p128: "\<forall>y \<in> set p. y < 128" and lst: "last p \<noteq> 105"
    by (auto simp: pattern_ok_def)
  consider (single) a where "lower_cp U l c t = [a]"
    | (doti) "lower_cp U l c t = [105, 775]"
    | (other) "c \<noteq> 8490" "c \<noteq> 304" "128 \<le> c"
    using U unfolding unicode_table_ok_def lower_cp_def
    by (metis not_le)
  then show ?case
  proof cases
    case single
    then show ?thesis using pre Cons.IH by simp
  next
    case doti
    have n: "775 \<notin> set p" using p128 by auto
    then have "\<not> str_prefix p (775 # lower_from U (l @ [c]) t)"
      using ne by (cases p) auto
    moreover have "\<not> str_prefix p (lower_from U l (c # t))"
      using doti str_prefix_dotted_i [OF ne lst n] by simp
    ultimately show ?thesis using doti pre Cons.IH by simp
  next
    case other
    then have b: "\<forall>y \<in> set (U l c t). 128 \<le> y"
      using U by (auto simp: unicode_table_ok_def)
    then have "\<forall>y \<in> set (U l c t). y \<notin> set p" using p128 by (meson not_le)
    then have "str_in p (U l c t @ lower_from U (l @ [c]) t)
                 = str_in p (lower_from U (l @ [c]) t)"
      using str_in_skip_block [OF ne] by blast
    moreover have "\<not> variant_prefix p (c # t)"
    proof (cases p)
      case Nil
      with ne show ?thesis by simp
    next
      case (Cons x p')
      then have "x < 128" using p128 by simp
      then have "\<not> same_letter c x"
        using other by (auto simp: same_letter_def ascii_lower_def)
      then show ?thesis using Cons by simp
    qed
    ultimately show ?thesis using other Cons.IH by (simp add: lower_cp_def)
  qed
qed

subsection \<open>Status strings\<close>

lemma lits:
  "cps '' '' = [32]"
  "cps ''forged'' = [102, 111, 114, 103, 101, 100]"
  "cps ''bot-like'' = [98, 111, 116, 45, 108, 105, 107, 101]"
  "cps ''unusual'' = [117, 110, 117, 115, 117, 97, 108]"
  by (simp_all add: cps_def)

lemma pattern_ok_lits:
  "pattern_ok (cps ''forged'')" "pattern_ok (cps ''bot-like'')" "pattern_ok (cps ''unusual'')"
  by (simp_all add: pattern_ok_def lits)

lemma marked_render:
  "(str_in CROSS (render st) \<or> str_in WARN (render st))
     = (level st = WARNING \<or> level st = REJECT \<or> \<not> clean (message st))"
  by (cases "level st") (auto simp: render_def clean_def CROSS_def WARN_def CHECK_def lits)

lemma severity_of_render: "severity_of (render st) = Some (level st)"
  by (cases "level st")
    (simp_all add: severity_of_def render_def CROSS_def WARN_def CHECK_def SIREN_def)

lemma combine_cases:
  "combine_risk_signals a b c =
     (if (str_in CROSS a \<or> str_in WARN a) \<or> (str_in CROSS b \<or> str_in WARN b)
          \<or> (str_in CROSS c \<or> str_in WARN c)
      then HIGH_RISK else LOW_RISK)"
  by (simp add: combine_risk_signals_def)

lemma severity_of_results:
  "severity_of HIGH_RISK = Some REJECT" "severity_of LOW_RISK = Some OK"
  "severity_of DOC_INVALID = Some REJECT" "severity_of DOC_VALID = Some OK"
  "severity_of BEHAVIOR_RISK = Some WARNING" "severity_of BEHAVIOR_NORMAL = Some OK"
  by (simp_all add: severity_of_def HIGH_RISK_def LOW_RISK_def DOC_INVALID_def DOC_VALID_def
      BEHAVIOR_RISK_def BEHAVIOR_NORMAL_def CROSS_def WARN_def CHECK_def SIREN_def)

lemma validate_cases:
  assumes "unicode_table_ok U"
  shows "str_in (cps ''forged'') (str_lower U text) = contains_variant (cps ''forged'') text"
  unfolding str_lower_def
  by (rule lower_contains [OF assms pattern_ok_lits(1)]) (simp add: lits)

lemma sev_max_OK: "sev_max v w = OK \<longleftrightarrow> v = OK \<and> w = OK"
  by (cases v; cases w) (simp_all add: sev_max_def)


section \<open>The claims\<close>

text \<open>
  Claim C1, as amended. For every three statuses, written down as the evaluators write
  them: when any of the three has severity WARNING or REJECT, \<open>combine_risk_signals\<close>
  returns the REJECT-level message "High Risk: Escalate to manual review."; when all three
  have severity OK and none of their message texts contains U+274C or U+26A0 U+FE0F, it
  returns the OK-level message "Low Risk: Auto-approve onboarding.".
\<close>

theorem combine_risk_signals_by_severity:
  "(level a = WARNING \<or> level a = REJECT \<or> level b = WARNING \<or> level b = REJECT
      \<or> level c = WARNING \<or> level c = REJECT
    \<longrightarrow> combine_risk_signals (render a) (render b) (render c) = HIGH_RISK)
   \<and> (level a = OK \<and> level b = OK \<and> level c = OK
      \<and> clean (message a) \<and> clean (message b) \<and> clean (message c)
    \<longrightarrow> combine_risk_signals (render a) (render b) (render c) = LOW_RISK)
   \<and> severity_of HIGH_RISK = Some REJECT \<and> severity_of LOW_RISK = Some OK"
proof -
  have "combine_risk_signals (render a) (render b) (render c) = HIGH_RISK"
    if "level a = WARNING \<or> level a = REJECT \<or> level b = WARNING \<or> level b = REJECT
      \<or> level c = WARNING \<or> level c = REJECT"
    using that unfolding combine_cases marked_render by auto
  moreover have "combine_risk_signals (render a) (render b) (render c) = LOW_RISK"
    if "level a = OK \<and> level b = OK \<and> level c = OK
      \<and> clean (message a) \<and> clean (message b) \<and> clean (message c)"
    using that unfolding combine_cases marked_render by auto
  ultimately show ?thesis using severity_of_results(1,2) by blast
qed

text \<open>
  The theorem at the statuses REJECT, OK, WARNING, and at three OK statuses with the
  evaluators' own message texts.
\<close>

theorem combine_risk_signals_by_severity_witness:
  "combine_risk_signals
      (render \<lparr>level = REJECT, message = cps ''Document invalid: suspected forgery.''\<rparr>)
      (render \<lparr>level = OK, message = cps ''Jane Smith is clear.''\<rparr>)
      (render \<lparr>level = WARNING, message = cps ''Behavioral risk detected.''\<rparr>) = HIGH_RISK
   \<and> clean (cps ''Document valid.'') \<and> clean (cps ''Jane Smith is clear.'')
   \<and> clean (cps ''Behavior appears normal.'')
   \<and> combine_risk_signals
      (render \<lparr>level = OK, message = cps ''Document valid.''\<rparr>)
      (render \<lparr>level = OK, message = cps ''Jane Smith is clear.''\<rparr>)
      (render \<lparr>level = OK, message = cps ''Behavior appears normal.''\<rparr>) = LOW_RISK"
proof -
  have c: "clean (cps ''Document valid.'')" "clean (cps ''Jane Smith is clear.'')"
    "clean (cps ''Behavior appears normal.'')"
    by (simp_all add: clean_def cps_def CROSS_def WARN_def)
  show ?thesis
    using c
      combine_risk_signals_by_severity
        [of "\<lparr>level = REJECT, message = cps ''Document invalid: suspected forgery.''\<rparr>"
            "\<lparr>level = OK, message = cps ''Jane Smith is clear.''\<rparr>"
            "\<lparr>level = WARNING, message = cps ''Behavioral risk detected.''\<rparr>"]
      combine_risk_signals_by_severity
        [of "\<lparr>level = OK, message = cps ''Document valid.''\<rparr>"
            "\<lparr>level = OK, message = cps ''Jane Smith is clear.''\<rparr>"
            "\<lparr>level = OK, message = cps ''Behavior appears normal.''\<rparr>"]
    by simp
qed

text \<open>
  Claim C1 as written fails. The name consisting of the one code point U+274C is not on the
  watchlist, so \<open>screen_against_sanctions\<close> answers with its OK status; combined with two
  more OK statuses the result is the high-risk message, not the low-risk one.
\<close>

theorem combine_risk_signals_ok_inputs_counterexample:
  "severity_of DOC_VALID = Some OK
   \<and> severity_of (screen_against_sanctions [10060]) = Some OK
   \<and> severity_of BEHAVIOR_NORMAL = Some OK
   \<and> combine_risk_signals DOC_VALID (screen_against_sanctions [10060]) BEHAVIOR_NORMAL
       = HIGH_RISK
   \<and> HIGH_RISK \<noteq> LOW_RISK"
  by (simp add: severity_of_def combine_risk_signals_def screen_against_sanctions_def
      watchlist_def DOC_VALID_def BEHAVIOR_NORMAL_def HIGH_RISK_def LOW_RISK_def
      CROSS_def WARN_def CHECK_def SIREN_def cps_def)

text \<open>
  Claim C2, as amended. For every three statuses written down as the three evaluators
  write them (the marker U+2705, U+26A0 U+FE0F or U+274C of the severity, a space, the
  message), the severity of the combined result is REJECT when the maximum of the three
  severities is WARNING or REJECT, and OK when the maximum is OK and no message text
  contains U+274C or U+26A0 U+FE0F. The severity read from a status written that way is
  the severity it was written with.
\<close>

theorem combine_risk_signals_severity:
  "(sev_max (level a) (sev_max (level b) (level c)) = WARNING
      \<or> sev_max (level a) (sev_max (level b) (level c)) = REJECT
    \<longrightarrow> severity_of (combine_risk_signals (render a) (render b) (render c)) = Some REJECT)
   \<and> (sev_max (level a) (sev_max (level b) (level c)) = OK
      \<and> clean (message a) \<and> clean (message b) \<and> clean (message c)
    \<longrightarrow> severity_of (combine_risk_signals (render a) (render b) (render c)) = Some OK)
   \<and> severity_of (render a) = Some (level a)
   \<and> severity_of (render b) = Some (level b)
   \<and> severity_of (render c) = Some (level c)"
proof -
  let ?m = "sev_max (level a) (sev_max (level b) (level c))"
  have m: "?m = OK \<longleftrightarrow> level a = OK \<and> level b = OK \<and> level c = OK"
    by (simp add: sev_max_OK)
  have "severity_of (combine_risk_signals (render a) (render b) (render c)) = Some REJECT"
    if "?m = WARNING \<or> ?m = REJECT"
  proof -
    from that have "?m \<noteq> OK" by auto
    then have "level a \<noteq> OK \<or> level b \<noteq> OK \<or> level c \<noteq> OK" using m by blast
    then have "level a = WARNING \<or> level a = REJECT \<or> level b = WARNING \<or> level b = REJECT
      \<or> level c = WARNING \<or> level c = REJECT"
      by (metis severity.exhaust)
    then have "combine_risk_signals (render a) (render b) (render c) = HIGH_RISK"
      unfolding combine_cases marked_render by auto
    then show ?thesis by (simp add: severity_of_results)
  qed
  moreover have "severity_of (combine_risk_signals (render a) (render b) (render c)) = Some OK"
    if "?m = OK \<and> clean (message a) \<and> clean (message b) \<and> clean (message c)"
  proof -
    from that m have "level a = OK \<and> level b = OK \<and> level c = OK" by blast
    with that have "combine_risk_signals (render a) (render b) (render c) = LOW_RISK"
      unfolding combine_cases marked_render by auto
    then show ?thesis by (simp add: severity_of_results)
  qed
  ultimately show ?thesis using severity_of_render by blast
qed

text \<open>
  The theorem at OK, OK, WARNING (maximum WARNING, result REJECT) and at OK, OK, OK.
\<close>

theorem combine_risk_signals_severity_witness:
  "sev_max OK (sev_max OK WARNING) = WARNING
   \<and> severity_of (combine_risk_signals
        (render \<lparr>level = OK, message = cps ''Document valid.''\<rparr>)
        (render \<lparr>level = OK, message = cps ''Jane Smith is clear.''\<rparr>)
        (render \<lparr>level = WARNING, message = cps ''Behavioral risk detected.''\<rparr>)) = Some REJECT
   \<and> sev_max OK (sev_max OK OK) = OK
   \<and> clean (cps ''Document valid.'') \<and> clean (cps ''Jane Smith is clear.'')
   \<and> clean (cps ''Behavior appears normal.'')
   \<and> severity_of (combine_risk_signals
        (render \<lparr>level = OK, message = cps ''Document valid.''\<rparr>)
        (render \<lparr>level = OK, message = cps ''Jane Smith is clear.''\<rparr>)
        (render \<lparr>level = OK, message = cps ''Behavior appears normal.''\<rparr>)) = Some OK"
proof -
  have c: "clean (cps ''Document valid.'')" "clean (cps ''Jane Smith is clear.'')"
    "clean (cps ''Behavior appears normal.'')"
    by (simp_all add: clean_def cps_def CROSS_def WARN_def)
  have m: "sev_max OK (sev_max OK WARNING) = WARNING" "sev_max OK (sev_max OK OK) = OK"
    by (simp_all add: sev_max_def)
  show ?thesis
    using c m
      combine_risk_signals_severity
        [of "\<lparr>level = OK, message = cps ''Document valid.''\<rparr>"
            "\<lparr>level = OK, message = cps ''Jane Smith is clear.''\<rparr>"
            "\<lparr>level = WARNING, message = cps ''Behavioral risk detected.''\<rparr>"]
      combine_risk_signals_severity
        [of "\<lparr>level = OK, message = cps ''Document valid.''\<rparr>"
            "\<lparr>level = OK, message = cps ''Jane Smith is clear.''\<rparr>"
            "\<lparr>level = OK, message = cps ''Behavior appears normal.''\<rparr>"]
    by simp
qed

text \<open>
  Claim C2 as written fails: the statuses OK, OK, WARNING have maximum severity WARNING,
  and the combined result has severity REJECT. It also fails from above: the REJECT-level
  status that the combinator itself returns carries neither marker the combinator looks
  for, so with two OK statuses the maximum is REJECT and the combined result has severity
  OK.
\<close>

theorem combine_risk_signals_max_counterexample:
  "severity_of DOC_VALID = Some OK
   \<and> severity_of (screen_against_sanctions (cps ''Jane Smith'')) = Some OK
   \<and> severity_of BEHAVIOR_RISK = Some WARNING
   \<and> sev_max OK (sev_max OK WARNING) = WARNING
   \<and> severity_of (combine_risk_signals DOC_VALID
        (screen_against_sanctions (cps ''Jane Smith'')) BEHAVIOR_RISK) = Some REJECT
   \<and> severity_of (combine_risk_signals DOC_VALID
        (screen_against_sanctions (cps ''Jane Smith'')) BEHAVIOR_RISK)
       \<noteq> Some (sev_max OK (sev_max OK WARNING))
   \<and> severity_of HIGH_RISK = Some REJECT
   \<and> severity_of BEHAVIOR_NORMAL = Some OK
   \<and> sev_max REJECT (sev_max OK OK) = REJECT
   \<and> severity_of (combine_risk_signals HIGH_RISK DOC_VALID BEHAVIOR_NORMAL) = Some OK
   \<and> severity_of (combine_risk_signals HIGH_RISK DOC_VALID BEHAVIOR_NORMAL)
       \<noteq> Some (sev_max REJECT (sev_max OK OK))"
  by (simp add: severity_of_def combine_risk_signals_def screen_against_sanctions_def
      watchlist_def DOC_VALID_def BEHAVIOR_RISK_def BEHAVIOR_NORMAL_def HIGH_RISK_def
      LOW_RISK_def sev_max_def CROSS_def WARN_def CHECK_def SIREN_def cps_def)

text \<open>
  Claim C3. For every string, \<open>validate_id_document\<close> returns the REJECT status
  "Document invalid: suspected forgery." when the string contains a case variant of
  "forged", and the OK status "Document valid." when it does not; the empty string gets
  "Document valid.". The lower-casing of non-ASCII code points is the one described by
  \<open>unicode_table_ok\<close>.
\<close>

theorem validate_id_document_case_insensitive:
  assumes "unicode_table_ok U"
  shows "validate_id_document U text =
           (if contains_variant (cps ''forged'') text then DOC_INVALID else DOC_VALID)
         \<and> validate_id_document U [] = DOC_VALID
         \<and> severity_of DOC_INVALID = Some REJECT \<and> severity_of DOC_VALID = Some OK"
proof -
  have "\<not> contains_variant (cps ''forged'') []" by (simp add: lits)
  then show ?thesis
    by (simp add: validate_id_document_def validate_cases [OF assms] severity_of_results)
qed

text \<open>
  The theorem at "A FORGED id", "Forged" and "forge d", with the sample table.
\<close>

theorem validate_id_document_case_insensitive_witness:
  "unicode_table_ok sample_table
   \<and> contains_variant (cps ''forged'') (cps ''A FORGED id'')
   \<and> validate_id_document sample_table (cps ''A FORGED id'') = DOC_INVALID
   \<and> contains_variant (cps ''forged'') (cps ''Forged'')
   \<and> validate_id_document sample_table (cps ''Forged'') = DOC_INVALID
   \<and> \<not> contains_variant (cps ''forged'') (cps ''forge d'')
   \<and> validate_id_document sample_table (cps ''forge d'') = DOC_VALID"
proof -
  have t: "unicode_table_ok sample_table"
    by (simp add: unicode_table_ok_def sample_table_def)
  have v: "contains_variant (cps ''forged'') (cps ''A FORGED id'')"
    "contains_variant (cps ''forged'') (cps ''Forged'')"
    "\<not> contains_variant (cps ''forged'') (cps ''forge d'')"
    by (simp_all add: cps_def same_letter_def ascii_lower_def)
  show ?thesis
    using t v
      validate_id_document_case_insensitive [OF t, of "cps ''A FORGED id''"]
      validate_id_document_case_insensitive [OF t, of "cps ''Forged''"]
      validate_id_document_case_insensitive [OF t, of "cps ''forge d''"]
    by simp
qed

text \<open>
  Claim C4. For every string \<open>full_name\<close>, \<open>screen_against_sanctions\<close> tests whether it is
  equal, code point by code point, to "John Doe" or "Ali Khan": if so the result is the
  REJECT status "{full_name} flagged on sanctions list.", otherwise the OK status
  "{full_name} is clear."; "john doe" is not a member.
\<close>

theorem screen_against_sanctions_exact:
  "screen_against_sanctions full_name =
     (if full_name = cps ''John Doe'' \<or> full_name = cps ''Ali Khan''
      then render \<lparr>level = REJECT, message = full_name @ cps '' flagged on sanctions list.''\<rparr>
      else render \<lparr>level = OK, message = full_name @ cps '' is clear.''\<rparr>)
   \<and> screen_against_sanctions (cps ''john doe'')
       = render \<lparr>level = OK, message = cps ''john doe is clear.''\<rparr>"
  by (simp add: screen_against_sanctions_def watchlist_def render_def cps_def)

text \<open>
  Claim C5. For every string, \<open>assess_behavioral_risk\<close> returns the WARNING status
  "Behavioral risk detected." when the string contains a case variant of "bot-like" or of
  "unusual", and the OK status "Behavior appears normal." otherwise. The lower-casing of
  non-ASCII code points is the one described by \<open>unicode_table_ok\<close>.
\<close>

theorem assess_behavioral_risk_case_insensitive:
  assumes "unicode_table_ok U"
  shows "assess_behavioral_risk U text =
           (if contains_variant (cps ''bot-like'') text \<or> contains_variant (cps ''unusual'') text
            then BEHAVIOR_RISK else BEHAVIOR_NORMAL)
         \<and> severity_of BEHAVIOR_RISK = Some WARNING \<and> severity_of BEHAVIOR_NORMAL = Some OK"
proof -
  have "str_in (cps ''bot-like'') (str_lower U text) = contains_variant (cps ''bot-like'') text"
    unfolding str_lower_def
    by (rule lower_contains [OF assms pattern_ok_lits(2)]) (simp add: lits)
  moreover
  have "str_in (cps ''unusual'') (str_lower U text) = contains_variant (cps ''unusual'') text"
    unfolding str_lower_def
    by (rule lower_contains [OF assms pattern_ok_lits(3)]) (simp add: lits)
  ultimately show ?thesis
    by (simp add: assess_behavioral_risk_def severity_of_results)
qed

text \<open>
  The theorem at "BOT-Like typing", "an UnUsual hour", "bot-li", U+212A, "e" and
  "bot like", with the sample table.
\<close>

theorem assess_behavioral_risk_case_insensitive_witness:
  "unicode_table_ok sample_table
   \<and> contains_variant (cps ''bot-like'') (cps ''BOT-Like typing'')
   \<and> assess_behavioral_risk sample_table (cps ''BOT-Like typing'') = BEHAVIOR_RISK
   \<and> contains_variant (cps ''unusual'') (cps ''an UnUsual hour'')
   \<and> assess_behavioral_risk sample_table (cps ''an UnUsual hour'') = BEHAVIOR_RISK
   \<and> contains_variant (cps ''bot-like'') (cps ''bot-li'' @ [8490, 101])
   \<and> assess_behavioral_risk sample_table (cps ''bot-li'' @ [8490, 101]) = BEHAVIOR_RISK
   \<and> \<not> contains_variant (cps ''bot-like'') (cps ''bot like'')
   \<and> \<not> contains_variant (cps ''unusual'') (cps ''bot like'')
   \<and> assess_behavioral_risk sample_table (cps ''bot like'') = BEHAVIOR_NORMAL"
proof -
  have t: "unicode_table_ok sample_table"
    by (simp add: unicode_table_ok_def sample_table_def)
  have v: "contains_variant (cps ''bot-like'') (cps ''BOT-Like typing'')"
    "contains_variant (cps ''unusual'') (cps ''an UnUsual hour'')"
    "contains_variant (cps ''bot-like'') (cps ''bot-li'' @ [8490, 101])"
    "\<not> contains_variant (cps ''bot-like'') (cps ''bot like'')"
    "\<not> contains_variant (cps ''unusual'') (cps ''bot like'')"
    by (simp_all add: cps_def same_letter_def ascii_lower_def)
  show ?thesis
    using t v
      assess_behavioral_risk_case_insensitive [OF t, of "cps ''BOT-Like typing''"]
      assess_behavioral_risk_case_insensitive [OF t, of "cps ''an UnUsual hour''"]
      assess_behavioral_risk_case_insensitive [OF t, of "cps ''bot-li'' @ [8490, 101]"]
      assess_behavioral_risk_case_insensitive [OF t, of "cps ''bot like''"]
    by simp
qed

text \<open>
  Claim C6, as amended. \<open>combine_risk_signals\<close> is monotone in each argument for
  replacements written down as the three evaluators write them: whatever the three inputs
  are, putting in the place of any one of them (an OK status in particular) a status of
  severity WARNING or REJECT that carries its marker U+26A0 U+FE0F or U+274C, followed by
  a space and any message, gives a result whose severity is not below the severity of the
  former result, in the order OK < WARNING < REJECT.
\<close>

theorem combine_risk_signals_monotone:
  assumes "level s = WARNING \<or> level s = REJECT"
  shows "(\<exists>v w. severity_of (combine_risk_signals a b c) = Some v
            \<and> severity_of (combine_risk_signals (render s) b c) = Some w
            \<and> sev_rank v \<le> sev_rank w)
       \<and> (\<exists>v w. severity_of (combine_risk_signals a b c) = Some v
            \<and> severity_of (combine_risk_signals a (render s) c) = Some w
            \<and> sev_rank v \<le> sev_rank w)
       \<and> (\<exists>v w. severity_of (combine_risk_signals a b c) = Some v
            \<and> severity_of (combine_risk_signals a b (render s)) = Some w
            \<and> sev_rank v \<le> sev_rank w)"
proof -
  have f: "str_in CROSS (render s) \<or> str_in WARN (render s)"
    using assms marked_render by blast
  have hi: "combine_risk_signals (render s) b c = HIGH_RISK"
    "combine_risk_signals a (render s) c = HIGH_RISK"
    "combine_risk_signals a b (render s) = HIGH_RISK"
    using f by (simp_all add: combine_cases)
  obtain v where v: "severity_of (combine_risk_signals a b c) = Some v"
    by (cases "combine_risk_signals a b c = HIGH_RISK")
      (auto simp: combine_cases severity_of_results split: if_splits)
  have "sev_rank v \<le> sev_rank REJECT" by (cases v) simp_all
  then show ?thesis using v hi by (simp add: severity_of_results)
qed

text \<open>
  The theorem at three OK statuses, the third replaced by a WARNING status.
\<close>

theorem combine_risk_signals_monotone_witness:
  "severity_of (combine_risk_signals DOC_VALID
       (render \<lparr>level = OK, message = cps ''Jane Smith is clear.''\<rparr>) BEHAVIOR_NORMAL) = Some OK
   \<and> severity_of (combine_risk_signals DOC_VALID
       (render \<lparr>level = OK, message = cps ''Jane Smith is clear.''\<rparr>)
       (render \<lparr>level = WARNING, message = cps ''Behavioral risk detected.''\<rparr>)) = Some REJECT
   \<and> sev_rank OK \<le> sev_rank REJECT"
proof -
  have "severity_of (combine_risk_signals DOC_VALID
       (render \<lparr>level = OK, message = cps ''Jane Smith is clear.''\<rparr>) BEHAVIOR_NORMAL) = Some OK"
    by (simp add: severity_of_def combine_risk_signals_def render_def DOC_VALID_def
        BEHAVIOR_NORMAL_def LOW_RISK_def HIGH_RISK_def CROSS_def WARN_def CHECK_def SIREN_def
        cps_def)
  moreover have "severity_of (combine_risk_signals DOC_VALID
       (render \<lparr>level = OK, message = cps ''Jane Smith is clear.''\<rparr>)
       (render \<lparr>level = WARNING, message = cps ''Behavioral risk detected.''\<rparr>)) = Some REJECT"
    by (simp add: severity_of_def combine_risk_signals_def render_def DOC_VALID_def
        LOW_RISK_def HIGH_RISK_def CROSS_def WARN_def CHECK_def SIREN_def cps_def)
  ultimately show ?thesis
    using combine_risk_signals_monotone
      [of "\<lparr>level = WARNING, message = cps ''Behavioral risk detected.''\<rparr>" DOC_VALID
          "render \<lparr>level = OK, message = cps ''Jane Smith is clear.''\<rparr>" BEHAVIOR_NORMAL]
    by simp
qed

text \<open>
  Claim C7. On "Forged national ID", "John Doe" and "Bot-like input pattern detected" the
  three evaluators give REJECT, REJECT and WARNING, and the combination of the three results
  is the REJECT-level message "High Risk: Escalate to manual review."; on "Valid passport",
  "Jane Smith" and "Normal typing speed" they give OK three times, and the combination is
  the OK-level message "Low Risk: Auto-approve onboarding.". All six inputs are ASCII, so
  this holds whatever the table \<open>U\<close> is.
\<close>

theorem end_to_end_scenarios:
  "validate_id_document U (cps ''Forged national ID'') = DOC_INVALID
   \<and> severity_of DOC_INVALID = Some REJECT
   \<and> screen_against_sanctions (cps ''John Doe'')
       = render \<lparr>level = REJECT, message = cps ''John Doe flagged on sanctions list.''\<rparr>
   \<and> assess_behavioral_risk U (cps ''Bot-like input pattern detected'') = BEHAVIOR_RISK
   \<and> severity_of BEHAVIOR_RISK = Some WARNING
   \<and> combine_risk_signals (validate_id_document U (cps ''Forged national ID''))
        (screen_against_sanctions (cps ''John Doe''))
        (assess_behavioral_risk U (cps ''Bot-like input pattern detected'')) = HIGH_RISK
   \<and> severity_of HIGH_RISK = Some REJECT
   \<and> validate_id_document U (cps ''Valid passport'') = DOC_VALID
   \<and> severity_of DOC_VALID = Some OK
   \<and> screen_against_sanctions (cps ''Jane Smith'')
       = render \<lparr>level = OK, message = cps ''Jane Smith is clear.''\<rparr>
   \<and> assess_behavioral_risk U (cps ''Normal typing speed'') = BEHAVIOR_NORMAL
   \<and> severity_of BEHAVIOR_NORMAL = Some OK
   \<and> combine_risk_signals (validate_id_document U (cps ''Valid passport''))
        (screen_against_sanctions (cps ''Jane Smith''))
        (assess_behavioral_risk U (cps ''Normal typing speed'')) = LOW_RISK
   \<and> severity_of LOW_RISK = Some OK"
proof -
  have d1: "validate_id_document U (cps ''Forged national ID'') = DOC_INVALID"
    by (simp add: validate_id_document_def cps_def str_lower_def lower_cp_def ascii_lower_def)
  have s1: "screen_against_sanctions (cps ''John Doe'')
       = render \<lparr>level = REJECT, message = cps ''John Doe flagged on sanctions list.''\<rparr>"
    by (simp add: screen_against_sanctions_def watchlist_def render_def cps_def)
  have b1: "assess_behavioral_risk U (cps ''Bot-like input pattern detected'') = BEHAVIOR_RISK"
    by (simp add: assess_behavioral_risk_def cps_def str_lower_def lower_cp_def ascii_lower_def)
  have d2: "validate_id_document U (cps ''Valid passport'') = DOC_VALID"
    by (simp add: validate_id_document_def cps_def str_lower_def lower_cp_def ascii_lower_def)
  have s2: "screen_against_sanctions (cps ''Jane Smith'')
       = render \<lparr>level = OK, message = cps ''Jane Smith is clear.''\<rparr>"
    by (simp add: screen_against_sanctions_def watchlist_def render_def cps_def)
  have b2: "assess_behavioral_risk U (cps ''Normal typing speed'') = BEHAVIOR_NORMAL"
    by (simp add: assess_behavioral_risk_def cps_def str_lower_def lower_cp_def ascii_lower_def)
  have c1: "combine_risk_signals DOC_INVALID
        (render \<lparr>level = REJECT, message = cps ''John Doe flagged on sanctions list.''\<rparr>)
        BEHAVIOR_RISK = HIGH_RISK"
    by (simp add: combine_risk_signals_def DOC_INVALID_def CROSS_def)
  have c2: "combine_risk_signals DOC_VALID
        (render \<lparr>level = OK, message = cps ''Jane Smith is clear.''\<rparr>)
        BEHAVIOR_NORMAL = LOW_RISK"
    by (simp add: combine_risk_signals_def render_def DOC_VALID_def BEHAVIOR_NORMAL_def
        CROSS_def WARN_def CHECK_def cps_def)
  show ?thesis
    unfolding d1 s1 b1 d2 s2 b2 c1 c2 by (simp add: severity_of_results)
qed

text \<open>
  Claim C8. The four operations are total and deterministic on their domains (any string
  for the three evaluators, any three strings for the combinator): every call returns one
  of the operation's two results, each a well-formed status, and equal inputs give equal
  results. In the source no operation reads or writes anything but its arguments, none
  raises on a string, and the only loops are the substring tests and the lower-casing,
  which are structural recursions here.
\<close>

theorem operations_total_deterministic:
  "(validate_id_document U text = DOC_INVALID \<or> validate_id_document U text = DOC_VALID)
   \<and> (screen_against_sanctions full_name
         = render \<lparr>level = REJECT, message = full_name @ cps '' flagged on sanctions list.''\<rparr>
      \<or> screen_against_sanctions full_name
         = render \<lparr>level = OK, message = full_name @ cps '' is clear.''\<rparr>)
   \<and> (assess_behavioral_risk U text = BEHAVIOR_RISK
      \<or> assess_behavioral_risk U text = BEHAVIOR_NORMAL)
   \<and> (combine_risk_signals a b c = HIGH_RISK \<or> combine_risk_signals a b c = LOW_RISK)
   \<and> (\<exists>v. severity_of (validate_id_document U text) = Some v)
   \<and> (\<exists>v. severity_of (screen_against_sanctions full_name) = Some v)
   \<and> (\<exists>v. severity_of (assess_behavioral_risk U text) = Some v)
   \<and> (\<exists>v. severity_of (combine_risk_signals a b c) = Some v)
   \<and> (text = text' \<longrightarrow> validate_id_document U text = validate_id_document U text')
   \<and> (full_name = full_name'
        \<longrightarrow> screen_against_sanctions full_name = screen_against_sanctions full_name')
   \<and> (text = text' \<longrightarrow> assess_behavioral_risk U text = assess_behavioral_risk U text')
   \<and> (a = a' \<and> b = b' \<and> c = c'
        \<longrightarrow> combine_risk_signals a b c = combine_risk_signals a' b' c')"
proof -
  have 1: "validate_id_document U text = DOC_INVALID \<or> validate_id_document U text = DOC_VALID"
    by (simp add: validate_id_document_def)
  have 2: "screen_against_sanctions full_name
         = render \<lparr>level = REJECT, message = full_name @ cps '' flagged on sanctions list.''\<rparr>
      \<or> screen_against_sanctions full_name
         = render \<lparr>level = OK, message = full_name @ cps '' is clear.''\<rparr>"
    by (simp add: screen_against_sanctions_def render_def)
  have 3: "assess_behavioral_risk U text = BEHAVIOR_RISK
      \<or> assess_behavioral_risk U text = BEHAVIOR_NORMAL"
    by (simp add: assess_behavioral_risk_def)
  have 4: "combine_risk_signals a b c = HIGH_RISK \<or> combine_risk_signals a b c = LOW_RISK"
    by (simp add: combine_cases)
  have 5: "\<exists>v. severity_of (validate_id_document U text) = Some v"
    using 1 severity_of_results by auto
  have 6: "\<exists>v. severity_of (screen_against_sanctions full_name) = Some v"
    using 2 severity_of_render by auto
  have 7: "\<exists>v. severity_of (assess_behavioral_risk U text) = Some v"
    using 3 severity_of_results by auto
  have 8: "\<exists>v. severity_of (combine_risk_signals a b c) = Some v"
    using 4 severity_of_results by auto
  show ?thesis using 1 2 3 4 5 6 7 8 by blast
qed

text \<open>
  The theorem at the inputs of the first demonstration scenario, each call made twice.
\<close>

theorem operations_total_deterministic_witness:
  "validate_id_document sample_table (cps ''Forged national ID'')
     = validate_id_document sample_table (cps ''Forged national ID'')
   \<and> screen_against_sanctions (cps ''John Doe'') = screen_against_sanctions (cps ''John Doe'')
   \<and> assess_behavioral_risk sample_table (cps ''Forged national ID'')
     = assess_behavioral_risk sample_table (cps ''Forged national ID'')
   \<and> combine_risk_signals DOC_INVALID (screen_against_sanctions (cps ''John Doe'')) BEHAVIOR_RISK
     = combine_risk_signals DOC_INVALID (screen_against_sanctions (cps ''John Doe'')) BEHAVIOR_RISK
   \<and> (\<exists>v. severity_of (validate_id_document sample_table (cps ''Forged national ID''))
         = Some v)
   \<and> (\<exists>v. severity_of (screen_against_sanctions (cps ''John Doe'')) = Some v)
   \<and> (\<exists>v. severity_of (assess_behavioral_risk sample_table (cps ''Forged national ID''))
         = Some v)
   \<and> (\<exists>v. severity_of (combine_risk_signals DOC_INVALID
         (screen_against_sanctions (cps ''John Doe'')) BEHAVIOR_RISK) = Some v)"
  using operations_total_deterministic
    [of sample_table "cps ''Forged national ID''" "cps ''John Doe''"
        DOC_INVALID "screen_against_sanctions (cps ''John Doe'')" BEHAVIOR_RISK
        "cps ''Forged national ID''" "cps ''John Doe''"
        DOC_INVALID "screen_against_sanctions (cps ''John Doe'')" BEHAVIOR_RISK]
  by blast

text \<open>
  Claim C6 as written fails. The REJECT-level status that the combinator itself returns
  starts with U+1F6A8 and carries neither marker the combinator looks for. The OK status
  that \<open>screen_against_sanctions\<close> returns for the name U+274C, with two more OK statuses,
  is combined to a result of severity REJECT; with that OK input replaced by the REJECT-level
  status the result has severity OK, which is lower.
\<close>

theorem combine_risk_signals_monotone_counterexample:
  "severity_of (screen_against_sanctions [10060]) = Some OK
   \<and> severity_of HIGH_RISK = Some REJECT
   \<and> severity_of (combine_risk_signals
        (screen_against_sanctions [10060]) DOC_VALID BEHAVIOR_NORMAL) = Some REJECT
   \<and> severity_of (combine_risk_signals HIGH_RISK DOC_VALID BEHAVIOR_NORMAL) = Some OK
   \<and> \<not> sev_rank REJECT \<le> sev_rank OK"
  by (simp add: severity_of_def combine_risk_signals_def screen_against_sanctions_def
      watchlist_def DOC_VALID_def BEHAVIOR_NORMAL_def HIGH_RISK_def LOW_RISK_def
      CROSS_def WARN_def CHECK_def SIREN_def cps_def)

text \<open>
  Claim C9. \<open>combine_risk_signals\<close> returns the high-risk message exactly when U+274C or
  U+26A0 U+FE0F occurs somewhere in one of its three inputs, and the low-risk message
  otherwise. The name consisting of the code point U+274C is not on the watchlist,
  \<open>screen_against_sanctions\<close> returns its OK status "... is clear." for it, and that status
  combined with two OK statuses gives "High Risk: Escalate to manual review.".
\<close>

theorem combine_risk_signals_marker_anywhere:
  "(combine_risk_signals a b c = HIGH_RISK \<longleftrightarrow>
      occurs_in CROSS a \<or> occurs_in WARN a \<or> occurs_in CROSS b \<or> occurs_in WARN b
      \<or> occurs_in CROSS c \<or> occurs_in WARN c)
   \<and> (combine_risk_signals a b c = LOW_RISK \<longleftrightarrow>
      \<not> (occurs_in CROSS a \<or> occurs_in WARN a \<or> occurs_in CROSS b \<or> occurs_in WARN b
      \<or> occurs_in CROSS c \<or> occurs_in WARN c))
   \<and> [10060] \<notin> set watchlist
   \<and> screen_against_sanctions [10060]
       = render \<lparr>level = OK, message = [10060] @ cps '' is clear.''\<rparr>
   \<and> combine_risk_signals DOC_VALID (screen_against_sanctions [10060]) BEHAVIOR_NORMAL
       = HIGH_RISK"
proof -
  have ne: "HIGH_RISK \<noteq> LOW_RISK"
    by (simp add: HIGH_RISK_def LOW_RISK_def SIREN_def CHECK_def)
  have w: "[10060] \<notin> set watchlist" by (simp add: watchlist_def cps_def)
  have s: "screen_against_sanctions [10060]
       = render \<lparr>level = OK, message = [10060] @ cps '' is clear.''\<rparr>"
    using w by (simp add: screen_against_sanctions_def render_def)
  have "str_in CROSS (render \<lparr>level = OK, message = [10060] @ cps '' is clear.''\<rparr>)"
    by (simp add: render_def CROSS_def CHECK_def cps_def)
  then have h: "combine_risk_signals DOC_VALID (screen_against_sanctions [10060])
      BEHAVIOR_NORMAL = HIGH_RISK"
    unfolding s by (simp add: combine_cases)
  show ?thesis
    using ne w s h by (simp add: combine_cases occurs_in_def str_in_iff [symmetric])
qed

text \<open>
  Claim C10. \<open>combine_risk_signals\<close> gives the same result on every permutation of its
  three arguments.
\<close>

theorem combine_risk_signals_symmetric:
  "combine_risk_signals a c b = combine_risk_signals a b c
   \<and> combine_risk_signals b a c = combine_risk_signals a b c
   \<and> combine_risk_signals b c a = combine_risk_signals a b c
   \<and> combine_risk_signals c a b = combine_risk_signals a b c
   \<and> combine_risk_signals c b a = combine_risk_signals a b c"
  unfolding combine_cases by auto

end
